theory Spec2Isabelle
  imports Main "HOL-Library.Sublist"
begin

section \<open>Campus lost-and-found: data model\<close>

text \<open>
  The program is a React client (\<^verbatim>\<open>App.tsx\<close>, \<^verbatim>\<open>PostCard.tsx\<close>, \<^verbatim>\<open>imgbb.ts\<close>,
  \<^verbatim>\<open>types.ts\<close>) over a hosted document store. The embedding below follows the
  TypeScript declarations: string unions become datatypes, interfaces become records,
  nullable fields become options.
\<close>

subsection \<open>Strings\<close>

text \<open>
  A JavaScript string is modelled as the list of its code units, restricted to the range
  U+0000..U+00FF that the type \<^typ>\<open>char\<close> offers (ASCII and the Latin-1 block).
  On that range \<^verbatim>\<open>String.prototype.toLowerCase\<close> works unit by unit: the letters
  \<^verbatim>\<open>A..Z\<close> (65..90) and U+00C0..U+00DE without the multiplication sign U+00D7 move
  32 up, every other unit stays. Beyond that range it does not work unit by unit; the
  filter over all strings of code units is given in a section of its own below.
\<close>

definition toLowerCase_unit :: "char \<Rightarrow> char" where
  "toLowerCase_unit c =
     (let n = (of_char c :: nat)
      in if (65 \<le> n \<and> n \<le> 90) \<or> (192 \<le> n \<and> n \<le> 222 \<and> n \<noteq> 215)
         then char_of (n + 32) else c)"

definition toLowerCase :: "string \<Rightarrow> string" where
  "toLowerCase s = map toLowerCase_unit s"

text \<open>
  \<^verbatim>\<open>String.prototype.toUpperCase\<close> is not called by the program; it is the reading of
  the specification's ``uppercase''. On the modelled range \<^verbatim>\<open>a..z\<close> and U+00E0..U+00FE
  without the division sign U+00F7 move 32 down and the sharp s U+00DF becomes the two
  units \<^verbatim>\<open>SS\<close>. The micro sign U+00B5 and U+00FF have upper-case forms outside the
  range (U+039C, U+0178): the result is \<^const>\<open>None\<close> for a string that holds one.
\<close>

definition toUpperCase_unit :: "char \<Rightarrow> string option" where
  "toUpperCase_unit c =
     (let n = (of_char c :: nat)
      in if n = 223 then Some ''SS''
         else if n = 181 \<or> n = 255 then None
         else if (97 \<le> n \<and> n \<le> 122) \<or> (224 \<le> n \<and> n \<le> 254 \<and> n \<noteq> 247)
         then Some [char_of (n - 32)] else Some [c])"

definition toUpperCase :: "string \<Rightarrow> string option" where
  "toUpperCase s = map_option concat (those (map toUpperCase_unit s))"

text \<open>
  \<^verbatim>\<open>s.includes(searchString)\<close>: does \<^verbatim>\<open>searchString\<close> occur in \<^verbatim>\<open>s\<close> as a
  contiguous run, starting at some position.
\<close>

fun string_includes :: "string \<Rightarrow> string \<Rightarrow> bool" where
  "string_includes [] searchString = (searchString = [])"
| "string_includes (c # cs) searchString =
     (prefix searchString (c # cs) \<or> string_includes cs searchString)"

text \<open>
  \<^verbatim>\<open>a || b\<close> on a nullable string \<^verbatim>\<open>a\<close>: \<^verbatim>\<open>null\<close> and the empty string are
  falsy and give \<^verbatim>\<open>b\<close>.
\<close>

definition or_else :: "string option \<Rightarrow> string \<Rightarrow> string" where
  "or_else a b = (case a of None \<Rightarrow> b | Some s \<Rightarrow> if s = [] then b else s)"

subsection \<open>Types of \<^verbatim>\<open>types.ts\<close> and of the form\<close>

datatype PostType = LOST | FOUND

datatype PostStatus = OPEN | RESOLVED

text \<open>The filter value \<^verbatim>\<open>'ALL' | PostType\<close> (\<open>ALL\<close> is taken by the syntax of HOL, hence the prime).\<close>

datatype FilterType = ALL' | OfType PostType

text \<open>
  The values a document's \<^verbatim>\<open>createdAt\<close> field takes on its way through the program:
  a number (\<^verbatim>\<open>Date.now()\<close>), the sentinel returned by \<^verbatim>\<open>serverTimestamp()\<close>, the
  store's \<^verbatim>\<open>Timestamp\<close> object (with its \<^verbatim>\<open>toMillis()\<close>), \<^verbatim>\<open>null\<close> while the
  server has not assigned the time yet, no field at all, or a string.
\<close>

datatype js_value =
    Absent
  | Null
  | Num int
  | Str string
  | Timestamp int
  | ServerTimestamp

text \<open>
  The fields the creation form and a post share, the form (\<^verbatim>\<open>NewPostForm\<close>), the
  document as it is written and read (\<^verbatim>\<open>Post\<close> without its \<^verbatim>\<open>id\<close>), and the post
  of the mirror. A document read from the store is taken to hold the fields that
  create writes; \<^verbatim>\<open>createdAt\<close> stays a \<^typ>\<open>js_value\<close>, as the cast
  \<^verbatim>\<open>as Post[]\<close> is not checked at run time. The field \<^verbatim>\<open>id\<close> of a post is
  \<open>post_id\<close> here, \<open>id\<close> being HOL's identity function.
\<close>

record PostFields =
  type :: PostType
  title :: string
  description :: string
  location :: string
  date :: string
  category :: string
  contactEmail :: string
  contactPhone :: string

datatype File = File string

record NewPostForm = PostFields +
  imageFile :: "File option"

record PostData = PostFields +
  imageUrl :: string
  createdBy :: string
  creatorName :: string
  creatorPhoto :: string
  createdAt :: js_value
  status :: PostStatus

record Post = PostData +
  post_id :: string

text \<open>The signed-in user (\<^verbatim>\<open>User\<close> of the identity provider).\<close>

record User =
  uid :: string
  displayName :: "string option"
  email :: "string option"
  photoURL :: "string option"

definition CATEGORIES :: "string list" where
  "CATEGORIES = [''Electronics'', ''ID Cards / Wallets'', ''Keys'', ''Books / Notes'',
     ''Clothing'', ''Accessories'', ''Others'']"

section \<open>Post filter\<close>

text \<open>
  \<^verbatim>\<open>filteredPosts\<close> of \<^verbatim>\<open>App.tsx\<close>: \<^verbatim>\<open>posts.filter(post => ...)\<close> over the mirror,
  with the search term and the type filter of the component's state.
\<close>

definition filteredPosts :: "Post list \<Rightarrow> string \<Rightarrow> FilterType \<Rightarrow> Post list" where
  "filteredPosts posts searchTerm filterType =
     filter (\<lambda>post.
       let matchesSearch =
             (string_includes (toLowerCase (title post)) (toLowerCase searchTerm) \<or>
              string_includes (toLowerCase (description post)) (toLowerCase searchTerm) \<or>
              string_includes (toLowerCase (location post)) (toLowerCase searchTerm) \<or>
              string_includes (toLowerCase (category post)) (toLowerCase searchTerm));
           matchesType = (filterType = ALL' \<or> OfType (type post) = filterType)
       in matchesSearch \<and> matchesType) posts"

subsection \<open>The specification's reading of the filter\<close>

text \<open>
  ``The query string, case-insensitively, is a substring of \<open>s\<close>'': some contiguous
  run of \<open>s\<close> equals the query up to letter case, that is, the two have the same
  lower-case form.
\<close>

definition spec_ci_substring :: "string \<Rightarrow> string \<Rightarrow> bool" where
  "spec_ci_substring q s \<longleftrightarrow>
     (\<exists>pre w suf. s = pre @ w @ suf \<and> toLowerCase w = toLowerCase q)"

definition spec_selected :: "string \<Rightarrow> FilterType \<Rightarrow> Post \<Rightarrow> bool" where
  "spec_selected q t p \<longleftrightarrow>
     (t = ALL' \<or> t = OfType (type p)) \<and>
     (spec_ci_substring q (title p) \<or> spec_ci_substring q (description p) \<or>
      spec_ci_substring q (location p) \<or> spec_ci_substring q (category p))"

text \<open>The two posts of the specification's scenario; fields it leaves open are empty.\<close>

definition post_a :: Post where
  "post_a = \<lparr>type = LOST, title = ''Blue Wallet'', description = '''', location = '''',
     date = '''', category = '''', contactEmail = '''', contactPhone = '''',
     imageUrl = '''', createdBy = '''', creatorName = '''', creatorPhoto = '''',
     createdAt = Num 100, status = OPEN, post_id = ''a''\<rparr>"

definition post_b :: Post where
  "post_b = \<lparr>type = FOUND, title = ''Red Keys'', description = '''', location = '''',
     date = '''', category = '''', contactEmail = '''', contactPhone = '''',
     imageUrl = '''', createdBy = '''', creatorName = '''', creatorPhoto = '''',
     createdAt = Num 200, status = OPEN, post_id = ''b''\<rparr>"

text \<open>A post whose title holds a sharp s: \<^verbatim>\<open>Stra\<close>, U+00DF, \<^verbatim>\<open>e\<close>.\<close>

definition post_strasse :: Post where
  "post_strasse = \<lparr>type = LOST, title = ''Stra'' @ [CHR 0xDF] @ ''e'', description = '''',
     location = '''', date = '''', category = '''', contactEmail = '''', contactPhone = '''',
     imageUrl = '''', createdBy = '''', creatorName = '''', creatorPhoto = '''',
     createdAt = Num 300, status = OPEN, post_id = ''c''\<rparr>"

section \<open>The filter on strings of UTF-16 code units\<close>

text \<open>
  A JavaScript string is a sequence of 16-bit code units, and beyond U+00FF
  \<^verbatim>\<open>toLowerCase\<close> is no longer a map on single units: the capital sigma U+03A3
  becomes the final sigma U+03C2 or the small sigma U+03C3 depending on its
  neighbours, and U+0130 becomes two units. The filter is therefore given a second
  time over strings of code units, with \<^verbatim>\<open>String.prototype.toLowerCase\<close> as a parameter
  \<open>lower\<close>: what is proved of it for every \<open>lower\<close> holds for the built-in, whatever
  its tables are. \<open>code_units\<close> reads a string of the range U+0000..U+00FF as code
  units.
\<close>

type_synonym utf16 = "nat list"

definition code_units :: "string \<Rightarrow> utf16" where
  "code_units s = map of_char s"

text \<open>
  The fields of a post that the filter reads. A post is any extension of this record:
  the filter is defined for every extension and hands the posts on as they are.
\<close>

record Post_utf16 =
  type16 :: PostType
  title16 :: utf16
  description16 :: utf16
  location16 :: utf16
  category16 :: utf16

fun includes_utf16 :: "utf16 \<Rightarrow> utf16 \<Rightarrow> bool" where
  "includes_utf16 [] searchString = (searchString = [])"
| "includes_utf16 (c # cs) searchString =
     (prefix searchString (c # cs) \<or> includes_utf16 cs searchString)"

definition filteredPosts_utf16 ::
  "(utf16 \<Rightarrow> utf16) \<Rightarrow> 'a Post_utf16_scheme list \<Rightarrow> utf16 \<Rightarrow> FilterType
     \<Rightarrow> 'a Post_utf16_scheme list" where
  "filteredPosts_utf16 lower posts searchTerm filterType =
     filter (\<lambda>post.
       let matchesSearch =
             (includes_utf16 (lower (title16 post)) (lower searchTerm) \<or>
              includes_utf16 (lower (description16 post)) (lower searchTerm) \<or>
              includes_utf16 (lower (location16 post)) (lower searchTerm) \<or>
              includes_utf16 (lower (category16 post)) (lower searchTerm));
           matchesType = (filterType = ALL' \<or> OfType (type16 post) = filterType)
       in matchesSearch \<and> matchesType) posts"

text \<open>
  A post of the range U+0000..U+00FF as a post over code units; the post itself rides
  along as the extension.
\<close>

definition as_utf16 :: "Post \<Rightarrow> Post Post_utf16_scheme" where
  "as_utf16 p =
     \<lparr>type16 = type p, title16 = code_units (title p),
      description16 = code_units (description p), location16 = code_units (location p),
      category16 = code_units (category p), \<dots> = p\<rparr>"

text \<open>
  \<^verbatim>\<open>String.prototype.toLowerCase\<close> on strings whose code units are in U+0000..U+00FF
  or one of the three sigmas U+03A3, U+03C2, U+03C3. Other units are outside this
  table and are kept as they are; the function is applied below to strings of the
  table only. The units of U+0000..U+00FF map as in \<open>toLowerCase_unit\<close>. The
  capital sigma follows the rule \<^verbatim>\<open>Final_Sigma\<close> of the Unicode special casing: it
  becomes U+03C2 when a cased letter comes before it, with nothing but case-ignorable
  characters in between, and no cased letter comes after it in the same way;
  otherwise it becomes U+03C3. \<open>Cased\<close> and \<open>Case_Ignorable\<close> are the Unicode
  properties of these names on the table.
\<close>

definition Cased :: "nat \<Rightarrow> bool" where
  "Cased n =
     ((65 \<le> n \<and> n \<le> 90) \<or> (97 \<le> n \<and> n \<le> 122) \<or> n = 170 \<or> n = 181 \<or> n = 186 \<or>
      (192 \<le> n \<and> n \<le> 214) \<or> (216 \<le> n \<and> n \<le> 246) \<or> (248 \<le> n \<and> n \<le> 255) \<or>
      n = 931 \<or> n = 962 \<or> n = 963)"

definition Case_Ignorable :: "nat \<Rightarrow> bool" where
  "Case_Ignorable n = (n \<in> {39, 46, 58, 94, 96, 168, 173, 175, 180, 183, 184})"

text \<open>
  Is the nearest unit that is not case-ignorable a cased letter? Asked of the units
  before a position (nearest first) and of the units after it.
\<close>

fun next_is_cased :: "utf16 \<Rightarrow> bool" where
  "next_is_cased [] = False"
| "next_is_cased (c # cs) = (if Case_Ignorable c then next_is_cased cs else Cased c)"

definition toLowerCase_utf16_unit :: "nat \<Rightarrow> nat" where
  "toLowerCase_utf16_unit n =
     (if (65 \<le> n \<and> n \<le> 90) \<or> (192 \<le> n \<and> n \<le> 222 \<and> n \<noteq> 215) then n + 32 else n)"

text \<open>
  The units still to come are lower-cased one by one, with the units already passed
  at hand, nearest first.
\<close>

fun toLowerCase_utf16_from :: "utf16 \<Rightarrow> utf16 \<Rightarrow> utf16" where
  "toLowerCase_utf16_from passed [] = []"
| "toLowerCase_utf16_from passed (c # rest) =
     (if c = 931
      then (if next_is_cased passed \<and> \<not> next_is_cased rest then 962 else 963)
      else toLowerCase_utf16_unit c)
     # toLowerCase_utf16_from (c # passed) rest"

definition toLowerCase_utf16 :: "utf16 \<Rightarrow> utf16" where
  "toLowerCase_utf16 s = toLowerCase_utf16_from [] s"

text \<open>
  ``The query string, case-insensitively, is a substring of \<open>s\<close>'', over code units:
  some contiguous run of \<open>s\<close> has the same lower-case form as the query. A query
  that occurs in \<open>s\<close> literally is such a run.
\<close>

definition spec_ci_substring_utf16 :: "(utf16 \<Rightarrow> utf16) \<Rightarrow> utf16 \<Rightarrow> utf16 \<Rightarrow> bool" where
  "spec_ci_substring_utf16 lower q s \<longleftrightarrow>
     (\<exists>pre w suf. s = pre @ w @ suf \<and> lower w = lower q)"

text \<open>
  A post titled \<^verbatim>\<open>A\<close>, U+03A3 (the letter A and a capital sigma), its other searched
  fields empty.
\<close>

definition post_sigma :: Post_utf16 where
  "post_sigma = \<lparr>type16 = LOST, title16 = [65, 931], description16 = [],
     location16 = [], category16 = []\<rparr>"

section \<open>Effects\<close>

text \<open>
  What the handlers do to the outside world, in the order they do it: remote calls
  (the upload request, the three store writes), state setters of the component, and
  the browser's dialogs and console.
\<close>

datatype js_error =
    FetchFailed
  | JsonFailed
  | Error string
  | FirestoreError string

datatype effect =
    PreventDefault
  | SetIsSubmitting bool
  | Fetch_imgbb File
  | AddDoc PostData
  | UpdateDoc string PostStatus
  | DeleteDoc string
  | SetIsModalOpen bool
  | SetFormState NewPostForm
  | ConsoleError string js_error
  | Alert string
  | Confirm string

section \<open>Image upload gateway\<close>

text \<open>
  The answer of the image host: \<^verbatim>\<open>fetch\<close> rejects, \<^verbatim>\<open>response.json()\<close> rejects, or
  a body with \<^verbatim>\<open>success\<close>, \<^verbatim>\<open>data.url\<close> and \<^verbatim>\<open>error?.message\<close>.
\<close>

record imgbb_body =
  success :: bool
  data_url :: string
  error_message :: "string option"

datatype fetch_outcome = FetchRejects | JsonRejects | Body imgbb_body

text \<open>
  \<^verbatim>\<open>uploadImageToImgBB\<close>: returns the URL, or logs and rethrows what went wrong.
\<close>

definition uploadImageToImgBB :: "fetch_outcome \<Rightarrow> File \<Rightarrow> effect list \<times> (js_error + string)" where
  "uploadImageToImgBB response file =
     (case response of
        FetchRejects \<Rightarrow>
          ([Fetch_imgbb file, ConsoleError ''Error uploading image:'' FetchFailed],
           Inl FetchFailed)
      | JsonRejects \<Rightarrow>
          ([Fetch_imgbb file, ConsoleError ''Error uploading image:'' JsonFailed],
           Inl JsonFailed)
      | Body data \<Rightarrow>
          if success data then ([Fetch_imgbb file], Inr (data_url data))
          else (let error = Error (or_else (error_message data) ''Image upload failed'')
                in ([Fetch_imgbb file, ConsoleError ''Error uploading image:'' error],
                    Inl error)))"

section \<open>Document store\<close>

text \<open>
  The remote collection \<^verbatim>\<open>posts\<close>, from document id to document. What one handler
  call meets outside the program is gathered in \<open>Env\<close>: the user's answer to
  \<^verbatim>\<open>confirm\<close>, the image host's answer, whether the store rejects the write (network,
  permission), the id the store generates for a new document, the server's clock, the
  client's clock (\<^verbatim>\<open>Date.now()\<close>) and the date \<^verbatim>\<open>INITIAL_FORM_STATE\<close> was built with.
\<close>

type_synonym posts_collection = "string \<rightharpoonup> PostData"

record Env =
  confirmed :: bool
  fetch_outcome :: fetch_outcome
  write_rejected :: "js_error option"
  newId :: string
  serverTime :: int
  now :: int
  today :: string

text \<open>
  The store's calls, as its interface defines them. \<^verbatim>\<open>addDoc\<close> stores the document
  under the generated id, the sentinel replaced by the server's time. \<^verbatim>\<open>updateDoc\<close>
  sets the given field of an existing document and rejects when there is none.
  \<^verbatim>\<open>deleteDoc\<close> removes the document, if any.
\<close>

definition addDoc :: "Env \<Rightarrow> PostData \<Rightarrow> posts_collection \<Rightarrow> js_error + posts_collection" where
  "addDoc env d store =
     (case write_rejected env of
        Some error \<Rightarrow> Inl error
      | None \<Rightarrow>
          Inr (store(newId env \<mapsto>
            (if createdAt d = ServerTimestamp then d\<lparr>createdAt := Timestamp (serverTime env)\<rparr>
             else d))))"

definition updateDoc ::
  "Env \<Rightarrow> string \<Rightarrow> PostStatus \<Rightarrow> posts_collection \<Rightarrow> js_error + posts_collection" where
  "updateDoc env docId st store =
     (case write_rejected env of
        Some error \<Rightarrow> Inl error
      | None \<Rightarrow>
          (case store docId of
             None \<Rightarrow> Inl (FirestoreError ''not-found'')
           | Some d \<Rightarrow> Inr (store(docId \<mapsto> d\<lparr>status := st\<rparr>))))"

definition deleteDoc :: "Env \<Rightarrow> string \<Rightarrow> posts_collection \<Rightarrow> js_error + posts_collection" where
  "deleteDoc env docId store =
     (case write_rejected env of
        Some error \<Rightarrow> Inl error
      | None \<Rightarrow> Inr (store(docId := None)))"

section \<open>Post mutation handlers\<close>

definition INITIAL_FORM_STATE :: "string \<Rightarrow> NewPostForm" where
  "INITIAL_FORM_STATE isoDate =
     \<lparr>type = LOST, title = '''', description = '''', location = '''', date = isoDate,
      category = CATEGORIES ! 0, contactEmail = '''', contactPhone = '''',
      imageFile = None\<rparr>"

text \<open>The object \<^verbatim>\<open>newPost\<close> of \<^verbatim>\<open>handleCreatePost\<close>.\<close>

definition newPost :: "int \<Rightarrow> User \<Rightarrow> NewPostForm \<Rightarrow> string \<Rightarrow> PostData" where
  "newPost clock u formState url =
     \<lparr>type = type formState,
      title = title formState,
      description = description formState,
      location = location formState,
      date = date formState,
      category = category formState,
      contactEmail = contactEmail formState,
      contactPhone = contactPhone formState,
      imageUrl = url,
      createdBy = uid u,
      creatorName = or_else (displayName u) ''Anonymous'',
      creatorPhoto = or_else (photoURL u) '''',
      createdAt = Num clock,
      status = OPEN\<rparr>"

text \<open>The \<^verbatim>\<open>catch\<close> and \<^verbatim>\<open>finally\<close> blocks of \<^verbatim>\<open>handleCreatePost\<close>.\<close>

definition create_caught :: "js_error \<Rightarrow> effect list" where
  "create_caught error =
     [ConsoleError ''Error creating post:'' error,
      Alert ''Failed to create post. Please try again.'',
      SetIsSubmitting False]"

text \<open>
  The first step of the \<^verbatim>\<open>try\<close> block: \<^verbatim>\<open>imageUrl\<close> is the empty string, or the
  URL the upload returns when the form holds a file.
\<close>

definition attachImage :: "Env \<Rightarrow> NewPostForm \<Rightarrow> effect list \<times> (js_error + string)" where
  "attachImage env formState =
     (case imageFile formState of
        None \<Rightarrow> ([], Inr '''')
      | Some file \<Rightarrow> uploadImageToImgBB (fetch_outcome env) file)"

text \<open>
  \<^verbatim>\<open>handleCreatePost\<close>: the effects in order, and the collection afterwards. The
  document handed to \<^verbatim>\<open>addDoc\<close> is \<^verbatim>\<open>{...newPost, createdAt: serverTimestamp()}\<close>.
\<close>

definition handleCreatePost ::
  "Env \<Rightarrow> User option \<Rightarrow> NewPostForm \<Rightarrow> posts_collection \<Rightarrow> effect list \<times> posts_collection" where
  "handleCreatePost env user formState store =
     (case user of
        None \<Rightarrow> ([PreventDefault], store)
      | Some u \<Rightarrow>
          (let (fx, uploaded) = attachImage env formState
           in case uploaded of
                Inl error \<Rightarrow>
                  ([PreventDefault, SetIsSubmitting True] @ fx @ create_caught error, store)
              | Inr url \<Rightarrow>
                  (let payload = (newPost (now env) u formState url)\<lparr>createdAt := ServerTimestamp\<rparr>
                   in case addDoc env payload store of
                        Inl error \<Rightarrow>
                          ([PreventDefault, SetIsSubmitting True] @ fx @ [AddDoc payload]
                             @ create_caught error, store)
                      | Inr store' \<Rightarrow>
                          ([PreventDefault, SetIsSubmitting True] @ fx @
                           [AddDoc payload,
                            SetIsModalOpen False,
                            SetFormState ((INITIAL_FORM_STATE (today env))
                              \<lparr>contactEmail := or_else (email u) ''''\<rparr>),
                            SetIsSubmitting False], store'))))"

definition handleResolvePost ::
  "Env \<Rightarrow> string \<Rightarrow> posts_collection \<Rightarrow> effect list \<times> posts_collection" where
  "handleResolvePost env postId store =
     (let ask = Confirm ''Are you sure you want to mark this item as resolved/found?''
      in if \<not> confirmed env then ([ask], store)
         else case updateDoc env postId RESOLVED store of
                Inl error \<Rightarrow>
                  ([ask, UpdateDoc postId RESOLVED,
                    ConsoleError ''Error resolving post:'' error], store)
              | Inr store' \<Rightarrow> ([ask, UpdateDoc postId RESOLVED], store'))"

definition handleDeletePost ::
  "Env \<Rightarrow> string \<Rightarrow> posts_collection \<Rightarrow> effect list \<times> posts_collection" where
  "handleDeletePost env postId store =
     (let ask = Confirm ''Are you sure you want to delete this post? This cannot be undone.''
      in if \<not> confirmed env then ([ask], store)
         else case deleteDoc env postId store of
                Inl error \<Rightarrow>
                  ([ask, DeleteDoc postId, ConsoleError ''Error deleting post:'' error], store)
              | Inr store' \<Rightarrow> ([ask, DeleteDoc postId], store'))"

text \<open>The remote calls among the effects, and the store writes among them.\<close>

fun is_remote_call :: "effect \<Rightarrow> bool" where
  "is_remote_call (Fetch_imgbb _) = True"
| "is_remote_call (AddDoc _) = True"
| "is_remote_call (UpdateDoc _ _) = True"
| "is_remote_call (DeleteDoc _) = True"
| "is_remote_call _ = False"

fun is_store_write :: "effect \<Rightarrow> bool" where
  "is_store_write (AddDoc _) = True"
| "is_store_write (UpdateDoc _ _) = True"
| "is_store_write (DeleteDoc _) = True"
| "is_store_write _ = False"

text \<open>What tells the user, or the console, that something failed.\<close>

fun is_error_report :: "effect \<Rightarrow> bool" where
  "is_error_report (ConsoleError _ _) = True"
| "is_error_report (Alert _) = True"
| "is_error_report _ = False"

section \<open>What the page lets the user do\<close>

text \<open>
  \<^verbatim>\<open>isOwner={user?.uid === post.createdBy}\<close> in \<^verbatim>\<open>App.tsx\<close>, and the condition
  \<^verbatim>\<open>isOwner && post.status !== 'RESOLVED'\<close> under which \<^verbatim>\<open>PostCard\<close> renders the
  buttons ``Mark Resolved'' and ``Delete''.
\<close>

definition isOwner :: "User option \<Rightarrow> Post \<Rightarrow> bool" where
  "isOwner user post = (case user of None \<Rightarrow> False | Some u \<Rightarrow> uid u = createdBy post)"

definition showsOwnerControls :: "User option \<Rightarrow> Post \<Rightarrow> bool" where
  "showsOwnerControls user post = (isOwner user post \<and> status post \<noteq> RESOLVED)"

text \<open>
  The inputs of the creation form that carry \<^verbatim>\<open>required\<close> and take part in the
  browser's validation: item name, description, location and date. The e-mail input is
  \<^verbatim>\<open>required\<close> too, but it is \<^verbatim>\<open>readOnly\<close>, which bars it from validation; type
  and category are selects without \<^verbatim>\<open>required\<close>. The browser raises the submit
  event, and with it \<^verbatim>\<open>handleCreatePost\<close>, only when these inputs are filled in.
\<close>

definition requiredInputsFilled :: "NewPostForm \<Rightarrow> bool" where
  "requiredInputsFilled formState =
     (title formState \<noteq> [] \<and> description formState \<noteq> [] \<and>
      location formState \<noteq> [] \<and> date formState \<noteq> [])"

text \<open>
  The three user actions that lead to a mutation, and what each sets off. The result is
  \<^const>\<open>None\<close> when the page does not take the action: the form is not submitted, or
  the button is not there.
\<close>

datatype ui_action = SubmitForm | ClickMarkResolved Post | ClickDelete Post

definition ui_dispatch ::
  "Env \<Rightarrow> User option \<Rightarrow> NewPostForm \<Rightarrow> ui_action \<Rightarrow> posts_collection
     \<Rightarrow> (effect list \<times> posts_collection) option" where
  "ui_dispatch env user formState action store =
     (case action of
        SubmitForm \<Rightarrow>
          if requiredInputsFilled formState
          then Some (handleCreatePost env user formState store) else None
      | ClickMarkResolved post \<Rightarrow>
          if showsOwnerControls user post
          then Some (handleResolvePost env (post_id post) store) else None
      | ClickDelete post \<Rightarrow>
          if showsOwnerControls user post
          then Some (handleDeletePost env (post_id post) store) else None)"

section \<open>Post store sync\<close>

text \<open>JavaScript's truthiness of a field value.\<close>

fun truthy :: "js_value \<Rightarrow> bool" where
  "truthy Absent = False"
| "truthy Null = False"
| "truthy (Num n) = (n \<noteq> 0)"
| "truthy (Str s) = (s \<noteq> [])"
| "truthy (Timestamp _) = True"
| "truthy ServerTimestamp = True"

text \<open>
  The \<^verbatim>\<open>createdAt\<close> of a mirrored post:
  \<^verbatim>\<open>data.createdAt && typeof data.createdAt.toMillis === 'function'
      ? data.createdAt.toMillis() : (data.createdAt || 0)\<close>.
  Only the store's timestamp object has a \<^verbatim>\<open>toMillis\<close>.
\<close>

fun snapshot_createdAt :: "js_value \<Rightarrow> js_value" where
  "snapshot_createdAt (Timestamp millis) = Num millis"
| "snapshot_createdAt v = (if truthy v then v else Num 0)"

text \<open>
  The listener of \<^verbatim>\<open>onSnapshot\<close>: each document of the snapshot, given as its id and
  its data, becomes \<^verbatim>\<open>{id: doc.id, ...data, createdAt: ...}\<close>; the result replaces the
  mirror and \<^verbatim>\<open>loading\<close> becomes false.
\<close>

definition fetchedPost :: "string \<times> PostData \<Rightarrow> Post" where
  "fetchedPost doc =
     PostData.extend
       ((snd doc)\<lparr>createdAt := snapshot_createdAt (createdAt (snd doc))\<rparr>)
       (Post.fields (fst doc))"

definition onSnapshot_listener :: "(string \<times> PostData) list \<Rightarrow> Post list \<times> bool" where
  "onSnapshot_listener docs = (map fetchedPost docs, False)"

section \<open>Runs of mutations\<close>

text \<open>
  One call of a mutation handler with all it meets, its effect on the collection, and
  the effect of a sequence of such calls.
\<close>

datatype mutation =
    Create Env "User option" NewPostForm
  | Resolve Env string
  | Delete Env string

fun perform :: "mutation \<Rightarrow> posts_collection \<Rightarrow> posts_collection" where
  "perform (Create env user formState) store = snd (handleCreatePost env user formState store)"
| "perform (Resolve env postId) store = snd (handleResolvePost env postId store)"
| "perform (Delete env postId) store = snd (handleDeletePost env postId store)"

definition perform_all :: "mutation list \<Rightarrow> posts_collection \<Rightarrow> posts_collection" where
  "perform_all ms store = fold perform ms store"

text \<open>The id the store hands out in a call, if the call is a create.\<close>

fun generated_id :: "mutation \<Rightarrow> string option" where
  "generated_id (Create env _ _) = Some (newId env)"
| "generated_id _ = None"

section \<open>Sample inputs\<close>

text \<open>
  A signed-in user without display name and photo, a filled-in form with and without
  a file, a call that meets a failing upload, a call that meets no failure, and a
  collection with one open and one resolved post.
\<close>

definition sample_user :: User where
  "sample_user = \<lparr>uid = ''u1'', displayName = None, email = Some ''sam@campus.example'',
     photoURL = None\<rparr>"

definition sample_form :: NewPostForm where
  "sample_form = \<lparr>type = LOST, title = ''Blue Wallet'', description = ''Leather, two cards'',
     location = ''Library'', date = ''2024-05-01'', category = ''ID Cards / Wallets'',
     contactEmail = ''sam@campus.example'', contactPhone = '''', imageFile = None\<rparr>"

definition sample_user_no_email :: User where
  "sample_user_no_email = sample_user\<lparr>email := None\<rparr>"

definition sample_form_no_email :: NewPostForm where
  "sample_form_no_email = sample_form\<lparr>contactEmail := ''''\<rparr>"



definition env_ok :: Env where
  "env_ok = \<lparr>confirmed = True,
     fetch_outcome = Body \<lparr>success = True, data_url = ''https://i.ibb.co/w.png'',
       error_message = None\<rparr>,
     write_rejected = None, newId = ''p3'', serverTime = 2000, now = 1990,
     today = ''2024-05-01''\<rparr>"

definition open_doc :: PostData where
  "open_doc = (newPost 90 sample_user sample_form '''')\<lparr>createdAt := Timestamp 100\<rparr>"

definition resolved_doc :: PostData where
  "resolved_doc = open_doc\<lparr>status := RESOLVED\<rparr>"

definition sample_store :: posts_collection where
  "sample_store = [''p1'' \<mapsto> open_doc, ''p2'' \<mapsto> resolved_doc]"

definition sample_post :: Post where
  "sample_post = fetchedPost (''p1'', open_doc)"

section \<open>Properties of the filter\<close>

lemma string_includes_sublist: "string_includes s q \<longleftrightarrow> sublist q s"
  by (induction s) (auto simp add: sublist_Cons_right)

lemma toLowerCase_unit_idem [simp]:
  "toLowerCase_unit (toLowerCase_unit c) = toLowerCase_unit c"
  by (auto simp add: toLowerCase_unit_def Let_def)

lemma toLowerCase_idem [simp]: "toLowerCase (toLowerCase s) = toLowerCase s"
  by (simp add: toLowerCase_def)

lemma toLowerCase_append: "toLowerCase (xs @ ys) = toLowerCase xs @ toLowerCase ys"
  by (simp add: toLowerCase_def)

lemma includes_lower_iff:
  "string_includes (toLowerCase s) (toLowerCase q) \<longleftrightarrow> spec_ci_substring q s"
proof
  assume "string_includes (toLowerCase s) (toLowerCase q)"
  then obtain ps ss where "map toLowerCase_unit s = ps @ (map toLowerCase_unit q @ ss)"
    by (auto simp add: string_includes_sublist sublist_def toLowerCase_def)
  then obtain pre rest where s: "s = pre @ rest"
    and "map toLowerCase_unit q @ ss = map toLowerCase_unit rest"
    unfolding map_eq_append_conv by blast
  then have "map toLowerCase_unit rest = map toLowerCase_unit q @ ss"
    by simp
  then obtain w suf where "rest = w @ suf"
    and "map toLowerCase_unit q = map toLowerCase_unit w"
    unfolding map_eq_append_conv by blast
  with s show "spec_ci_substring q s"
    by (auto simp add: spec_ci_substring_def toLowerCase_def)
next
  assume "spec_ci_substring q s"
  then obtain pre w suf where "s = pre @ w @ suf" and "toLowerCase w = toLowerCase q"
    by (auto simp add: spec_ci_substring_def)
  then have "toLowerCase s = toLowerCase pre @ toLowerCase q @ toLowerCase suf"
    by (simp add: toLowerCase_append)
  then show "string_includes (toLowerCase s) (toLowerCase q)"
    by (auto simp add: string_includes_sublist sublist_def)
qed

lemma string_includes_Nil [simp]: "string_includes s []"
  by (simp add: string_includes_sublist)

lemma filteredPosts_lower:
  "toLowerCase q' = toLowerCase q \<Longrightarrow> filteredPosts M q' t = filteredPosts M q t"
  by (simp add: filteredPosts_def)

lemma eq_char_of_iff: "c = char_of (n::nat) \<longleftrightarrow> of_char c = take_bit 8 n"
  using char_of_eq_iff [of n c] by auto

lemmas lower_eval = toLowerCase_def toLowerCase_unit_def char_of_eq_iff eq_char_of_iff

lemma filteredPosts_spec: "filteredPosts M q t = filter (spec_selected q t) M"
  unfolding filteredPosts_def spec_selected_def Let_def includes_lower_iff
  by (rule filter_cong) auto

lemma filteredPosts_empty_query:
  "filteredPosts M [] t = filter (\<lambda>p. t = ALL' \<or> t = OfType (type p)) M"
  unfolding filteredPosts_def Let_def
  by (rule filter_cong) (auto simp add: toLowerCase_def)

lemma scenario_key: "filteredPosts [post_a, post_b] ''key'' ALL' = [post_b]"
  by (simp add: filteredPosts_def post_a_def post_b_def lower_eval)

text \<open>
  Claim C8. Filtering a filtered mirror again with the same query and type filter
  changes nothing, and the result is a function of the three inputs alone: equal
  inputs give equal results.
\<close>

theorem C8_filter_idempotent:
  "filteredPosts (filteredPosts M q t) q t = filteredPosts M q t
   \<and> (M' = M \<and> q' = q \<and> t' = t \<longrightarrow> filteredPosts M' q' t' = filteredPosts M q t)"
  by (simp add: filteredPosts_def)

theorem C8_filter_idempotent_witness:
  "[post_a, post_b] = [post_a, post_b]
   \<and> filteredPosts (filteredPosts [post_a, post_b] ''key'' ALL') ''key'' ALL' = [post_b]"
  using C8_filter_idempotent [of "[post_a, post_b]" "''key''" "ALL'"
      "[post_a, post_b]" "''key''" "ALL'"] scenario_key
  by simp

lemma toUpperCase_unit_lower:
  "of_char c \<notin> {181::nat, 223, 255} \<Longrightarrow>
     \<exists>d. toUpperCase_unit c = Some [d] \<and> toLowerCase_unit d = toLowerCase_unit c"
  by (auto simp add: toLowerCase_unit_def toUpperCase_unit_def Let_def)

lemma toUpperCase_lower:
  "\<forall>c\<in>set q. of_char c \<notin> {181::nat, 223, 255} \<Longrightarrow>
     \<exists>u. toUpperCase q = Some u \<and> toLowerCase u = toLowerCase q"
proof (induction q)
  case Nil
  then show ?case by (simp add: toUpperCase_def toLowerCase_def)
next
  case (Cons c q)
  then obtain u where u: "toUpperCase q = Some u" "toLowerCase u = toLowerCase q"
    by auto
  from Cons.prems obtain d where d: "toUpperCase_unit c = Some [d]"
    "toLowerCase_unit d = toLowerCase_unit c"
    using toUpperCase_unit_lower [of c] by auto
  from u d show ?case
    by (auto simp add: toUpperCase_def toLowerCase_def split: option.splits)
qed

text \<open>
  Claim C9, as stated, fails for the upper-case form of a query: the sharp s (U+00DF)
  has the upper-case form \<^verbatim>\<open>SS\<close>, whose lower-case form \<^verbatim>\<open>ss\<close> is not the sharp s.
  A post titled \<^verbatim>\<open>Stra\<close>, U+00DF, \<^verbatim>\<open>e\<close> is found by the query U+00DF and not by
  that query's upper-case form.
\<close>

theorem C9_uppercase_counterexample:
  "toUpperCase [CHR 0xDF] = Some ''SS''
   \<and> filteredPosts [post_strasse] [CHR 0xDF] ALL' = [post_strasse]
   \<and> filteredPosts [post_strasse] ''SS'' ALL' = []"
  by (simp add: filteredPosts_def post_strasse_def lower_eval toUpperCase_def
      toUpperCase_unit_def)

text \<open>
  Claim C9, amended. For every mirror \<open>M\<close>, type filter \<open>t\<close> and query \<open>q\<close>,
  filtering by \<open>q\<close> and by the lower-case form of \<open>q\<close> give the same result. When
  the characters of \<open>q\<close> are ASCII, or more generally characters of U+0000..U+00FF
  other than the sharp s U+00DF, the micro sign U+00B5 and U+00FF, the upper-case form
  of \<open>q\<close> gives that result too. Filtering by \<^verbatim>\<open>BACKPACK\<close> and by \<^verbatim>\<open>backpack\<close>
  give the same result.
\<close>

theorem C9_filter_case_insensitive_query:
  "filteredPosts M (toLowerCase q) t = filteredPosts M q t
   \<and> ((\<forall>c\<in>set q. of_char c \<notin> {181::nat, 223, 255}) \<longrightarrow>
        (\<exists>u. toUpperCase q = Some u \<and> filteredPosts M u t = filteredPosts M q t))
   \<and> ((\<forall>c\<in>set q. (of_char c :: nat) < 128) \<longrightarrow>
        (\<exists>u. toUpperCase q = Some u \<and> filteredPosts M u t = filteredPosts M q t))
   \<and> filteredPosts M ''BACKPACK'' t = filteredPosts M ''backpack'' t"
proof -
  have lower: "filteredPosts M (toLowerCase q) t = filteredPosts M q t"
    by (rule filteredPosts_lower) simp
  have upper: "\<exists>u. toUpperCase q = Some u \<and> filteredPosts M u t = filteredPosts M q t"
    if "\<forall>c\<in>set q. of_char c \<notin> {181::nat, 223, 255}"
  proof -
    from that obtain u where "toUpperCase q = Some u" and "toLowerCase u = toLowerCase q"
      using toUpperCase_lower by blast
    then show ?thesis
      using filteredPosts_lower by blast
  qed
  have ascii: "\<forall>c\<in>set q. of_char c \<notin> {181::nat, 223, 255}"
    if "\<forall>c\<in>set q. (of_char c :: nat) < 128"
    using that by auto
  have "toLowerCase ''BACKPACK'' = toLowerCase ''backpack''"
    by (simp add: lower_eval)
  then have "filteredPosts M ''BACKPACK'' t = filteredPosts M ''backpack'' t"
    by (rule filteredPosts_lower)
  with lower upper ascii show ?thesis
    by blast
qed

theorem C9_filter_case_insensitive_query_witness:
  "list_all (\<lambda>c. (of_char c :: nat) < 128) ''Key''
   \<and> list_all (\<lambda>c. of_char c \<notin> {181::nat, 223, 255}) ''Key''
   \<and> toUpperCase ''Key'' = Some ''KEY''
   \<and> filteredPosts [post_a, post_b] ''KEY'' ALL' = filteredPosts [post_a, post_b] ''Key'' ALL'
   \<and> filteredPosts [post_a, post_b] (toLowerCase ''Key'') ALL' = [post_b]"
proof -
  have up: "toUpperCase ''Key'' = Some ''KEY''"
    by (simp add: toUpperCase_def toUpperCase_unit_def lower_eval)
  have low: "toLowerCase ''Key'' = ''key''"
    by (simp add: lower_eval)
  show ?thesis
    using C9_filter_case_insensitive_query [of "[post_a, post_b]" "''Key''" "ALL'"]
      up low scenario_key
    by simp
qed

section \<open>Properties of the filter over code units\<close>

lemma includes_utf16_sublist: "includes_utf16 s q \<longleftrightarrow> sublist q s"
  by (induction s) (auto simp add: sublist_Cons_right)

lemma sublist_code_units: "sublist (code_units q) (code_units s) \<longleftrightarrow> sublist q s"
proof
  assume "sublist (code_units q) (code_units s)"
  then obtain q' where "sublist q' s" and "map of_char q = (map of_char q' :: nat list)"
    unfolding code_units_def using sublist_map_rightE by blast
  moreover have "inj (of_char :: char \<Rightarrow> nat)"
    by (rule inj_of_char)
  ultimately show "sublist q s"
    by (simp add: inj_map_eq_map)
next
  assume "sublist q s"
  then show "sublist (code_units q) (code_units s)"
    unfolding code_units_def by (rule map_mono_sublist)
qed

lemma toLowerCase_utf16_unit_of_char:
  "toLowerCase_utf16_unit (of_char c) = of_char (toLowerCase_unit c)"
  by (auto simp add: toLowerCase_utf16_unit_def toLowerCase_unit_def Let_def)

lemma of_char_not_sigma: "(of_char c :: nat) \<noteq> 931"
  using nat_of_char_less_256 [of c] by arith

lemma toLowerCase_utf16_from_code_units:
  "toLowerCase_utf16_from passed (code_units s) = code_units (toLowerCase s)"
  by (induction s arbitrary: passed)
    (simp_all add: code_units_def toLowerCase_def toLowerCase_utf16_unit_of_char
      of_char_not_sigma)

lemma toLowerCase_utf16_code_units:
  "toLowerCase_utf16 (code_units s) = code_units (toLowerCase s)"
  by (simp add: toLowerCase_utf16_def toLowerCase_utf16_from_code_units)

lemma filteredPosts_utf16_sublist:
  "filteredPosts_utf16 lower M q t =
     filter (\<lambda>p. (t = ALL' \<or> t = OfType (type16 p)) \<and>
        (sublist (lower q) (lower (title16 p)) \<or>
         sublist (lower q) (lower (description16 p)) \<or>
         sublist (lower q) (lower (location16 p)) \<or>
         sublist (lower q) (lower (category16 p)))) M"
  unfolding filteredPosts_utf16_def Let_def includes_utf16_sublist
  by (rule filter_cong) auto

lemma filteredPosts_utf16_as_utf16:
  assumes "\<forall>s. lower (code_units s) = code_units (toLowerCase s)"
  shows "filteredPosts_utf16 lower (map as_utf16 N) (code_units r) t =
     map as_utf16 (filteredPosts N r t)"
proof -
  have "filteredPosts_utf16 lower (map as_utf16 N) (code_units r) t =
      map as_utf16 (filter (\<lambda>p. (t = ALL' \<or> t = OfType (type p)) \<and>
        (sublist (toLowerCase r) (toLowerCase (title p)) \<or>
         sublist (toLowerCase r) (toLowerCase (description p)) \<or>
         sublist (toLowerCase r) (toLowerCase (location p)) \<or>
         sublist (toLowerCase r) (toLowerCase (category p)))) N)"
    unfolding filteredPosts_utf16_sublist filter_map comp_def
    by (simp add: as_utf16_def assms sublist_code_units)
  also have "\<dots> = map as_utf16 (filteredPosts N r t)"
    unfolding filteredPosts_def Let_def string_includes_sublist
    by (rule arg_cong [where f = "map as_utf16"], rule filter_cong) auto
  finally show ?thesis .
qed

lemma toLowerCase_utf16_sigma:
  "toLowerCase_utf16 [65, 931] = [97, 962]" "toLowerCase_utf16 [931] = [963]"
  "toLowerCase_utf16 [] = []"
  by (simp_all add: toLowerCase_utf16_def toLowerCase_utf16_unit_def Cased_def
      Case_Ignorable_def)

text \<open>
  Claim C1, as stated, fails beyond U+00FF. The query U+03A3 (capital sigma) occurs
  literally in the title \<^verbatim>\<open>A\<close>, U+03A3, so it is a substring of the title up to
  letter case. The filter compares lower-case forms of whole strings: the title becomes
  \<^verbatim>\<open>a\<close>, U+03C2 (final sigma), the query becomes U+03C3, and the post is dropped.
\<close>

theorem C1_final_sigma_counterexample:
  "sublist [931] (title16 post_sigma)
   \<and> spec_ci_substring_utf16 toLowerCase_utf16 [931] (title16 post_sigma)
   \<and> toLowerCase_utf16 (title16 post_sigma) = [97, 962]
   \<and> toLowerCase_utf16 [931] = [963]
   \<and> filteredPosts_utf16 toLowerCase_utf16 [post_sigma] [931] ALL' = []"
proof -
  have title: "title16 post_sigma = [65] @ [931] @ []"
    by (simp add: post_sigma_def)
  have "sublist [931] (title16 post_sigma)"
    unfolding sublist_def title by blast
  moreover have "spec_ci_substring_utf16 toLowerCase_utf16 [931] (title16 post_sigma)"
    unfolding spec_ci_substring_utf16_def title by blast
  moreover have "filteredPosts_utf16 toLowerCase_utf16 [post_sigma] [931] ALL' = []"
    by (simp add: filteredPosts_utf16_def post_sigma_def toLowerCase_utf16_sigma)
  ultimately show ?thesis
    by (simp add: post_sigma_def toLowerCase_utf16_sigma)
qed

text \<open>
  Claim C1, amended. For every mirror \<open>M\<close>, query \<open>q\<close> and type filter \<open>t\<close> the
  filter returns exactly the posts of \<open>M\<close>, in the order of \<open>M\<close>, whose type passes
  the filter (\<open>t\<close> is ALL or the post's type) and for which the lower-case form of
  \<open>q\<close> is a substring of the lower-case form of title, description, location or
  category, each string lower-cased as a whole. The result is a subsequence of \<open>M\<close>,
  and the empty query lets every post through that passes the type filter. For
  strings of the range U+0000..U+00FF, where lower-casing goes character by character,
  this is the same as \<open>q\<close> being a substring of one of the four fields up to letter
  case; and for the mirror of the scenario the query \<^verbatim>\<open>key\<close> with ALL gives the post
  \<open>b\<close> alone.
\<close>

theorem C1_filter_selects_by_lowercase_forms:
  "filteredPosts_utf16 lower M q t =
     filter (\<lambda>p. (t = ALL' \<or> t = OfType (type16 p)) \<and>
        (sublist (lower q) (lower (title16 p)) \<or>
         sublist (lower q) (lower (description16 p)) \<or>
         sublist (lower q) (lower (location16 p)) \<or>
         sublist (lower q) (lower (category16 p)))) M
   \<and> subseq (filteredPosts_utf16 lower M q t) M
   \<and> (lower [] = [] \<longrightarrow>
        filteredPosts_utf16 lower M [] t = filter (\<lambda>p. t = ALL' \<or> t = OfType (type16 p)) M
        \<and> filteredPosts_utf16 lower M [] ALL' = M)
   \<and> ((\<forall>s. lower (code_units s) = code_units (toLowerCase s)) \<longrightarrow>
        filteredPosts_utf16 lower (map as_utf16 N) (code_units r) t =
          map as_utf16 (filter (spec_selected r t) N)
        \<and> filteredPosts_utf16 lower [as_utf16 post_a, as_utf16 post_b]
             (code_units ''key'') ALL' = [as_utf16 post_b])"
proof (intro conjI impI)
  show "filteredPosts_utf16 lower M q t =
     filter (\<lambda>p. (t = ALL' \<or> t = OfType (type16 p)) \<and>
        (sublist (lower q) (lower (title16 p)) \<or>
         sublist (lower q) (lower (description16 p)) \<or>
         sublist (lower q) (lower (location16 p)) \<or>
         sublist (lower q) (lower (category16 p)))) M"
    by (rule filteredPosts_utf16_sublist)
  show "subseq (filteredPosts_utf16 lower M q t) M"
    by (simp add: filteredPosts_utf16_def)
next
  assume "lower [] = []"
  then show "filteredPosts_utf16 lower M [] t =
      filter (\<lambda>p. t = ALL' \<or> t = OfType (type16 p)) M"
    unfolding filteredPosts_utf16_sublist by (intro filter_cong) auto
  then show "filteredPosts_utf16 lower M [] ALL' = M"
    using \<open>lower [] = []\<close> unfolding filteredPosts_utf16_sublist by simp
next
  assume latin1: "\<forall>s. lower (code_units s) = code_units (toLowerCase s)"
  then show "filteredPosts_utf16 lower (map as_utf16 N) (code_units r) t =
      map as_utf16 (filter (spec_selected r t) N)"
    by (simp add: filteredPosts_utf16_as_utf16 filteredPosts_spec)
  from latin1 have "filteredPosts_utf16 lower (map as_utf16 [post_a, post_b])
      (code_units ''key'') ALL' = map as_utf16 (filteredPosts [post_a, post_b] ''key'' ALL')"
    by (rule filteredPosts_utf16_as_utf16)
  then show "filteredPosts_utf16 lower [as_utf16 post_a, as_utf16 post_b]
      (code_units ''key'') ALL' = [as_utf16 post_b]"
    by (simp add: scenario_key)
qed

theorem C1_filter_selects_by_lowercase_forms_witness:
  "toLowerCase_utf16 [] = []
   \<and> (\<forall>s. toLowerCase_utf16 (code_units s) = code_units (toLowerCase s))
   \<and> filteredPosts_utf16 toLowerCase_utf16 [as_utf16 post_a, as_utf16 post_b] [] ALL' =
       [as_utf16 post_a, as_utf16 post_b]
   \<and> filteredPosts_utf16 toLowerCase_utf16 [as_utf16 post_a, as_utf16 post_b]
       (code_units ''key'') ALL' = [as_utf16 post_b]"
proof -
  have empty: "toLowerCase_utf16 [] = []"
    by (simp add: toLowerCase_utf16_def)
  have latin1: "\<forall>s. toLowerCase_utf16 (code_units s) = code_units (toLowerCase s)"
    by (simp add: toLowerCase_utf16_code_units)
  show ?thesis
    using C1_filter_selects_by_lowercase_forms [of toLowerCase_utf16
        "[as_utf16 post_a, as_utf16 post_b]" "[]" "ALL'"] empty latin1
    by simp
qed

section \<open>Properties of the mutation handlers\<close>

lemma create_no_user: "handleCreatePost env None formState store = ([PreventDefault], store)"
  by (simp add: handleCreatePost_def)

lemma create_upload_failed:
  "snd (attachImage env formState) = Inl error \<Longrightarrow>
   handleCreatePost env (Some u) formState store =
     ([PreventDefault, SetIsSubmitting True] @ fst (attachImage env formState)
        @ create_caught error, store)"
  by (auto simp add: handleCreatePost_def split: prod.splits)

lemma create_write_rejected:
  "snd (attachImage env formState) = Inr url \<Longrightarrow> write_rejected env = Some error \<Longrightarrow>
   handleCreatePost env (Some u) formState store =
     ([PreventDefault, SetIsSubmitting True] @ fst (attachImage env formState) @
      [AddDoc ((newPost (now env) u formState url)\<lparr>createdAt := ServerTimestamp\<rparr>)]
        @ create_caught error, store)"
  by (auto simp add: handleCreatePost_def addDoc_def Let_def split: prod.splits)

lemma create_done:
  "snd (attachImage env formState) = Inr url \<Longrightarrow> write_rejected env = None \<Longrightarrow>
   handleCreatePost env (Some u) formState store =
     ([PreventDefault, SetIsSubmitting True] @ fst (attachImage env formState) @
      [AddDoc ((newPost (now env) u formState url)\<lparr>createdAt := ServerTimestamp\<rparr>),
       SetIsModalOpen False,
       SetFormState ((INITIAL_FORM_STATE (today env))\<lparr>contactEmail := or_else (email u) ''''\<rparr>),
       SetIsSubmitting False],
      store(newId env \<mapsto>
        (newPost (now env) u formState url)\<lparr>createdAt := Timestamp (serverTime env)\<rparr>))"
  by (auto simp add: handleCreatePost_def addDoc_def Let_def split: prod.splits)

lemma upload_no_write: "\<not> list_ex is_store_write (fst (uploadImageToImgBB response file))"
  by (auto simp add: uploadImageToImgBB_def Let_def split: fetch_outcome.splits)

lemma upload_no_AddDoc: "AddDoc d \<notin> set (fst (uploadImageToImgBB response file))"
  by (auto simp add: uploadImageToImgBB_def Let_def split: fetch_outcome.splits)


lemma attachImage_no_write: "\<not> list_ex is_store_write (fst (attachImage env formState))"
  by (simp add: attachImage_def upload_no_write split: option.splits)

lemma attachImage_no_AddDoc: "AddDoc d \<notin> set (fst (attachImage env formState))"
  by (simp add: attachImage_def upload_no_AddDoc split: option.splits)


lemma create_AddDoc:
  assumes "AddDoc d \<in> set (fst (handleCreatePost env user formState store))"
  shows "\<exists>u url. user = Some u \<and> snd (attachImage env formState) = Inr url
           \<and> d = (newPost (now env) u formState url)\<lparr>createdAt := ServerTimestamp\<rparr>"
proof (cases user)
  case None
  with assms show ?thesis by (simp add: create_no_user)
next
  case (Some u)
  show ?thesis
  proof (cases "snd (attachImage env formState)")
    case (Inl error)
    with assms Some show ?thesis
      by (simp add: create_upload_failed attachImage_no_AddDoc create_caught_def)
  next
    case (Inr url)
    with assms Some show ?thesis
      by (cases "write_rejected env")
        (auto simp add: create_done create_write_rejected attachImage_no_AddDoc
          create_caught_def)
  qed
qed


lemma sample_attachImage: "attachImage env_ok sample_form = ([], Inr '''')"
  by (simp add: attachImage_def sample_form_def)

lemma sample_create:
  "handleCreatePost env_ok (Some sample_user) sample_form sample_store =
     ([PreventDefault, SetIsSubmitting True,
       AddDoc ((newPost 1990 sample_user sample_form '''')\<lparr>createdAt := ServerTimestamp\<rparr>),
       SetIsModalOpen False,
       SetFormState ((INITIAL_FORM_STATE ''2024-05-01'')
         \<lparr>contactEmail := ''sam@campus.example''\<rparr>),
       SetIsSubmitting False],
      sample_store(''p3'' \<mapsto> (newPost 1990 sample_user sample_form '''')
        \<lparr>createdAt := Timestamp 2000\<rparr>))"
proof -
  have up: "snd (attachImage env_ok sample_form) = Inr ''''"
    by (simp add: sample_attachImage)
  have env: "write_rejected env_ok = None" "now env_ok = 1990" "newId env_ok = ''p3''"
    "serverTime env_ok = 2000" "today env_ok = ''2024-05-01''"
    by (simp_all add: env_ok_def)
  have mail: "or_else (email sample_user) '''' = ''sam@campus.example''"
    by (simp add: sample_user_def or_else_def)
  show ?thesis
    using create_done [OF up env(1), of sample_user sample_store]
    by (simp add: sample_attachImage env mail)
qed



text \<open>
  Claim C6. Every document create hands to the store carries the server-timestamp
  sentinel as \<^verbatim>\<open>createdAt\<close>. In a successful create (session, image step passed,
  write accepted) the object \<^verbatim>\<open>newPost\<close> holds the client's clock, the document
  handed to \<^verbatim>\<open>addDoc\<close> is that object with \<^verbatim>\<open>createdAt\<close> replaced by the sentinel,
  and the stored document holds the server's time, whatever the client's clock says.
\<close>

theorem C6_createdAt_is_server_timestamp:
  "(AddDoc d \<in> set (fst (handleCreatePost env user formState store)) \<longrightarrow>
      createdAt d = ServerTimestamp)
   \<and> (user = Some u \<and> snd (attachImage env formState) = Inr url
        \<and> write_rejected env = None \<longrightarrow>
        createdAt (newPost (now env) u formState url) = Num (now env)
        \<and> AddDoc ((newPost (now env) u formState url)\<lparr>createdAt := ServerTimestamp\<rparr>)
             \<in> set (fst (handleCreatePost env user formState store))
        \<and> snd (handleCreatePost env user formState store) (newId env) =
             Some ((newPost (now env) u formState url)
               \<lparr>createdAt := Timestamp (serverTime env)\<rparr>))"
proof (intro conjI impI)
  assume "AddDoc d \<in> set (fst (handleCreatePost env user formState store))"
  then show "createdAt d = ServerTimestamp"
    using create_AddDoc by fastforce
next
  assume a: "user = Some u \<and> snd (attachImage env formState) = Inr url
    \<and> write_rejected env = None"
  show "createdAt (newPost (now env) u formState url) = Num (now env)"
    by (simp add: newPost_def)
  from a show "AddDoc ((newPost (now env) u formState url)\<lparr>createdAt := ServerTimestamp\<rparr>)
             \<in> set (fst (handleCreatePost env user formState store))"
    by (simp add: create_done)
  from a show "snd (handleCreatePost env user formState store) (newId env) =
             Some ((newPost (now env) u formState url)
               \<lparr>createdAt := Timestamp (serverTime env)\<rparr>)"
    by (simp add: create_done)
qed

theorem C6_createdAt_is_server_timestamp_witness:
  "snd (attachImage env_ok sample_form) = Inr ''''
   \<and> write_rejected env_ok = None
   \<and> now env_ok = 1990
   \<and> createdAt (newPost 1990 sample_user sample_form '''') = Num 1990
   \<and> AddDoc ((newPost 1990 sample_user sample_form '''')\<lparr>createdAt := ServerTimestamp\<rparr>)
        \<in> set (fst (handleCreatePost env_ok (Some sample_user) sample_form sample_store))
   \<and> map_option createdAt
        (snd (handleCreatePost env_ok (Some sample_user) sample_form sample_store) ''p3'') =
       Some (Timestamp 2000)"
proof -
  have "snd (attachImage env_ok sample_form) = Inr ''''"
    by (simp add: sample_attachImage)
  moreover have "write_rejected env_ok = None" and "now env_ok = 1990"
    and "newId env_ok = ''p3''" and "serverTime env_ok = 2000"
    by (simp_all add: env_ok_def)
  ultimately show ?thesis
    using C6_createdAt_is_server_timestamp [of
        "(newPost 1990 sample_user sample_form '''')\<lparr>createdAt := ServerTimestamp\<rparr>"
        env_ok "Some sample_user" sample_form sample_store sample_user "''''"]
    by simp
qed

text \<open>
  Claim C10. In every document create hands to the store, \<^verbatim>\<open>creatorName\<close> is the
  user's display name, or \<^verbatim>\<open>Anonymous\<close> when that is null (or empty), and
  \<^verbatim>\<open>creatorPhoto\<close> is the user's photo URL, or the empty string when that is null.
  Both fields are strings in every case, never null, and the name is never empty.
\<close>

theorem C10_creator_defaults:
  "AddDoc d \<in> set (fst (handleCreatePost env user formState store)) \<Longrightarrow>
     \<exists>u. user = Some u
       \<and> creatorName d = or_else (displayName u) ''Anonymous''
       \<and> creatorPhoto d = or_else (photoURL u) ''''
       \<and> (displayName u = None \<longrightarrow> creatorName d = ''Anonymous'')
       \<and> (photoURL u = None \<longrightarrow> creatorPhoto d = '''')
       \<and> creatorName d \<noteq> ''''"
proof -
  assume "AddDoc d \<in> set (fst (handleCreatePost env user formState store))"
  then obtain u url where "user = Some u"
    and "d = (newPost (now env) u formState url)\<lparr>createdAt := ServerTimestamp\<rparr>"
    using create_AddDoc by blast
  then show ?thesis
    by (auto simp add: newPost_def or_else_def split: option.splits)
qed

theorem C10_creator_defaults_witness:
  "AddDoc ((newPost 1990 sample_user sample_form '''')\<lparr>createdAt := ServerTimestamp\<rparr>)
     \<in> set (fst (handleCreatePost env_ok (Some sample_user) sample_form sample_store))
   \<and> displayName sample_user = None
   \<and> photoURL sample_user = None
   \<and> creatorName ((newPost 1990 sample_user sample_form '''')
        \<lparr>createdAt := ServerTimestamp\<rparr>) = ''Anonymous''
   \<and> creatorPhoto ((newPost 1990 sample_user sample_form '''')
        \<lparr>createdAt := ServerTimestamp\<rparr>) = ''''"
proof -
  have a: "AddDoc ((newPost 1990 sample_user sample_form '''')\<lparr>createdAt := ServerTimestamp\<rparr>)
     \<in> set (fst (handleCreatePost env_ok (Some sample_user) sample_form sample_store))"
    by (simp add: sample_create)
  have "displayName sample_user = None" and "photoURL sample_user = None"
    by (simp_all add: sample_user_def)
  then show ?thesis
    using C10_creator_defaults [OF a] a by auto
qed

text \<open>
  Claim C2, as stated, fails: called without a session, create does not fail with an
  error. It returns at once; nothing is thrown, logged or shown.
\<close>

theorem C2_create_without_session_counterexample:
  "handleCreatePost env_ok None sample_form sample_store = ([PreventDefault], sample_store)
   \<and> \<not> list_ex is_error_report
         (fst (handleCreatePost env_ok None sample_form sample_store))"
  by (simp add: create_no_user)

text \<open>
  Claim C2, amended. Without a session no mutation reaches the network. Create returns
  at once and silently, before any remote call: its only effect is
  \<^verbatim>\<open>preventDefault\<close>. The buttons for resolve and delete are not rendered, as nobody
  is the owner of a post. So whatever action the page takes, it issues no remote call
  and no write, reports no error, and leaves the collection as it is.
\<close>

theorem C2_no_session_no_remote_call:
  assumes "user = None"
  shows "handleCreatePost env user formState store = ([PreventDefault], store)
     \<and> ui_dispatch env user formState (ClickMarkResolved post) store = None
     \<and> ui_dispatch env user formState (ClickDelete post) store = None
     \<and> (\<forall>r. ui_dispatch env user formState action store = Some r \<longrightarrow>
            \<not> list_ex is_remote_call (fst r) \<and> \<not> list_ex is_store_write (fst r)
            \<and> \<not> list_ex is_error_report (fst r) \<and> snd r = store)"
  using assms
  by (cases action)
    (auto simp add: ui_dispatch_def showsOwnerControls_def isOwner_def create_no_user)

theorem C2_no_session_no_remote_call_witness:
  "ui_dispatch env_ok None sample_form SubmitForm sample_store =
     Some ([PreventDefault], sample_store)
   \<and> ui_dispatch env_ok None sample_form (ClickMarkResolved sample_post) sample_store = None
   \<and> ui_dispatch env_ok None sample_form (ClickDelete sample_post) sample_store = None"
proof -
  have "requiredInputsFilled sample_form"
    by (simp add: requiredInputsFilled_def sample_form_def)
  then have "ui_dispatch env_ok None sample_form SubmitForm sample_store =
      Some (handleCreatePost env_ok None sample_form sample_store)"
    by (simp add: ui_dispatch_def)
  then show ?thesis
    using C2_no_session_no_remote_call [OF refl, of env_ok sample_form sample_store
        sample_post SubmitForm]
    by simp
qed

text \<open>
  Claim C3 at its failing input. The form marks the input of the contact e-mail as
  required, like the inputs of item name, description, location and date, but that
  input is read-only as well, and the browser leaves a read-only input out of its
  validation. For a signed-in user without e-mail address the form is therefore
  submitted with an empty contact e-mail; create, which checks no field itself, writes
  the document with the empty \<^verbatim>\<open>contactEmail\<close>, and no error is reported.
\<close>

theorem C3_empty_contactEmail_is_written:
  "contactEmail sample_form_no_email = ''''
   \<and> ui_dispatch env_ok (Some sample_user_no_email) sample_form_no_email SubmitForm
         sample_store =
       Some (handleCreatePost env_ok (Some sample_user_no_email) sample_form_no_email
         sample_store)
   \<and> list_ex is_store_write
        (fst (handleCreatePost env_ok (Some sample_user_no_email) sample_form_no_email
           sample_store))
   \<and> \<not> list_ex is_error_report
        (fst (handleCreatePost env_ok (Some sample_user_no_email) sample_form_no_email
           sample_store))
   \<and> map_option contactEmail
        (snd (handleCreatePost env_ok (Some sample_user_no_email) sample_form_no_email
           sample_store) ''p3'') = Some ''''"
proof -
  have up: "snd (attachImage env_ok sample_form_no_email) = Inr ''''"
    and fx: "fst (attachImage env_ok sample_form_no_email) = []"
    by (simp_all add: attachImage_def sample_form_no_email_def sample_form_def)
  have env: "write_rejected env_ok = None" "newId env_ok = ''p3''"
    by (simp_all add: env_ok_def)
  have filled: "requiredInputsFilled sample_form_no_email"
    by (simp add: requiredInputsFilled_def sample_form_no_email_def sample_form_def)
  have mail: "contactEmail sample_form_no_email = ''''"
    by (simp add: sample_form_no_email_def)
  show ?thesis
    using create_done [OF up env(1), of sample_user_no_email sample_store] filled mail
    by (simp add: ui_dispatch_def fx env newPost_def)
qed

section \<open>Status of a post over time\<close>

lemma create_store:
  "snd (handleCreatePost env user formState store) = store
   \<or> (\<exists>d. snd (handleCreatePost env user formState store) = store(newId env \<mapsto> d)
          \<and> status d = OPEN)"
proof (cases user)
  case None
  then show ?thesis by (simp add: create_no_user)
next
  case (Some u)
  show ?thesis
  proof (cases "snd (attachImage env formState)")
    case (Inl error)
    with Some show ?thesis by (simp add: create_upload_failed)
  next
    case (Inr url)
    show ?thesis
    proof (cases "write_rejected env")
      case None
      have "status ((newPost (now env) u formState url)
          \<lparr>createdAt := Timestamp (serverTime env)\<rparr>) = OPEN"
        by (simp add: newPost_def)
      with Some Inr None show ?thesis
        by (simp only: create_done snd_conv) blast
    next
      case (Some error)
      with \<open>user = Some u\<close> Inr show ?thesis
        by (simp add: create_write_rejected)
    qed
  qed
qed

lemma resolve_store:
  "snd (handleResolvePost env postId store) = store
   \<or> (\<exists>d. store postId = Some d
          \<and> snd (handleResolvePost env postId store) = store(postId \<mapsto> d\<lparr>status := RESOLVED\<rparr>))"
  by (auto simp add: handleResolvePost_def updateDoc_def Let_def split: option.splits)

lemma delete_store:
  "snd (handleDeletePost env postId store) = store
   \<or> snd (handleDeletePost env postId store) = store(postId := None)"
  by (auto simp add: handleDeletePost_def deleteDoc_def Let_def split: option.splits)

lemma perform_absent:
  "store i = None \<Longrightarrow> generated_id m \<noteq> Some i \<Longrightarrow> perform m store i = None"
proof (cases m)
  case (Create env user formState)
  assume "store i = None" and "generated_id m \<noteq> Some i"
  with Create show ?thesis
    using create_store [of env user formState store] by auto
next
  case (Resolve env postId)
  assume "store i = None"
  with Resolve show ?thesis
    using resolve_store [of env postId store] by auto
next
  case (Delete env postId)
  assume "store i = None"
  with Delete show ?thesis
    using delete_store [of env postId store] by auto
qed

lemma perform_resolved:
  "store i = Some p \<Longrightarrow> status p = RESOLVED \<Longrightarrow> generated_id m \<noteq> Some i \<Longrightarrow>
   perform m store i = None \<or> (\<exists>p'. perform m store i = Some p' \<and> status p' = RESOLVED)"
proof (cases m)
  case (Create env user formState)
  assume "store i = Some p" and "status p = RESOLVED" and "generated_id m \<noteq> Some i"
  with Create show ?thesis
    using create_store [of env user formState store] by auto
next
  case (Resolve env postId)
  assume "store i = Some p" and "status p = RESOLVED"
  with Resolve show ?thesis
    using resolve_store [of env postId store] by (cases "i = postId") auto
next
  case (Delete env postId)
  assume "store i = Some p" and "status p = RESOLVED"
  with Delete show ?thesis
    using delete_store [of env postId store] by (cases "i = postId") auto
qed

lemma perform_all_absent:
  "store i = None \<Longrightarrow> \<forall>m\<in>set ms. generated_id m \<noteq> Some i \<Longrightarrow>
   perform_all ms store i = None"
proof (induction ms arbitrary: store)
  case Nil
  then show ?case by (simp add: perform_all_def)
next
  case (Cons m ms)
  then have "perform m store i = None"
    by (simp add: perform_absent)
  with Cons have "perform_all ms (perform m store) i = None"
    by simp
  then show ?case by (simp add: perform_all_def)
qed

lemma perform_all_resolved:
  "store i = Some p \<Longrightarrow> status p = RESOLVED \<Longrightarrow>
   \<forall>m\<in>set ms. generated_id m \<noteq> Some i \<Longrightarrow>
   perform_all ms store i = None
   \<or> (\<exists>p'. perform_all ms store i = Some p' \<and> status p' = RESOLVED)"
proof (induction ms arbitrary: store p)
  case Nil
  then show ?case by (simp add: perform_all_def)
next
  case (Cons m ms)
  have step: "perform m store i = None
    \<or> (\<exists>p'. perform m store i = Some p' \<and> status p' = RESOLVED)"
    using Cons.prems by (simp add: perform_resolved)
  have rest: "\<forall>m\<in>set ms. generated_id m \<noteq> Some i"
    using Cons.prems by simp
  from step show ?case
  proof
    assume "perform m store i = None"
    then have "perform_all ms (perform m store) i = None"
      using rest by (rule perform_all_absent)
    then show ?thesis by (simp add: perform_all_def)
  next
    assume "\<exists>p'. perform m store i = Some p' \<and> status p' = RESOLVED"
    then obtain p' where "perform m store i = Some p'" and "status p' = RESOLVED"
      by blast
    then have "perform_all ms (perform m store) i = None
      \<or> (\<exists>q. perform_all ms (perform m store) i = Some q \<and> status q = RESOLVED)"
      using rest by (rule Cons.IH)
    then show ?thesis by (simp add: perform_all_def)
  qed
qed

lemma resolve_resolved:
  "store i = Some p \<Longrightarrow> status p = RESOLVED \<Longrightarrow>
   snd (handleResolvePost env i store) = store"
proof -
  assume a: "store i = Some p" and r: "status p = RESOLVED"
  then have "p\<lparr>status := RESOLVED\<rparr> = p" by simp
  then have "store(i \<mapsto> p\<lparr>status := RESOLVED\<rparr>) = store"
    using a by (simp add: fun_upd_idem)
  with a show ?thesis
    by (simp add: handleResolvePost_def updateDoc_def Let_def split: option.splits)
qed

lemma resolve_existing_no_report:
  "store i = Some p \<Longrightarrow> write_rejected env = None \<Longrightarrow>
   \<not> list_ex is_error_report (fst (handleResolvePost env i store))"
  by (simp add: handleResolvePost_def updateDoc_def Let_def)

text \<open>
  Claim C5. Every document create writes has status OPEN, so a post starts OPEN.
  A step of any of the three operations changes the status of a post that exists before
  and after it only from OPEN to RESOLVED. A post that is RESOLVED stays RESOLVED through
  every sequence of operations, for as long as it exists: the status changes at most
  once and never goes back. Resolving a post that is RESOLVED already leaves the
  collection as it is and, when the store accepts the write, reports no error. Ids are
  unique: the statements are about operations in which the store does not hand out
  the post's id for a new document.
\<close>

theorem C5_status_only_open_to_resolved:
  "(AddDoc d \<in> set (fst (handleCreatePost env user formState store)) \<longrightarrow> status d = OPEN)
   \<and> (store (newId env) = None
        \<and> snd (handleCreatePost env user formState store) (newId env) = Some d' \<longrightarrow>
        status d' = OPEN)
   \<and> (store j = Some q \<and> perform m store j = Some q' \<and> generated_id m \<noteq> Some j
        \<and> status q' \<noteq> status q \<longrightarrow> status q = OPEN \<and> status q' = RESOLVED)
   \<and> (store i = Some p \<and> status p = RESOLVED
        \<and> (\<forall>m\<in>set ms. generated_id m \<noteq> Some i)
        \<and> perform_all ms store i = Some p'' \<longrightarrow> status p'' = RESOLVED)
   \<and> (store i = Some p \<and> status p = RESOLVED \<longrightarrow>
        snd (handleResolvePost env' i store) = store
        \<and> (write_rejected env' = None \<longrightarrow>
             \<not> list_ex is_error_report (fst (handleResolvePost env' i store))))"
proof (intro conjI impI)
  assume "AddDoc d \<in> set (fst (handleCreatePost env user formState store))"
  then show "status d = OPEN"
    using create_AddDoc [of d env user formState store] by (auto simp add: newPost_def)
next
  assume "store (newId env) = None
    \<and> snd (handleCreatePost env user formState store) (newId env) = Some d'"
  then show "status d' = OPEN"
    using create_store [of env user formState store] by auto
next
  assume a: "store j = Some q \<and> perform m store j = Some q' \<and> generated_id m \<noteq> Some j
    \<and> status q' \<noteq> status q"
  have "status q \<noteq> RESOLVED"
  proof
    assume "status q = RESOLVED"
    with a have "status q' = RESOLVED"
      using perform_resolved [of store j q m] by auto
    with \<open>status q = RESOLVED\<close> a show False by simp
  qed
  then have "status q = OPEN"
    by (cases "status q") simp_all
  moreover from this a have "status q' = RESOLVED"
    by (cases "status q'") simp_all
  ultimately show "status q = OPEN" and "status q' = RESOLVED"
    by simp_all
next
  assume "store i = Some p \<and> status p = RESOLVED
    \<and> (\<forall>m\<in>set ms. generated_id m \<noteq> Some i) \<and> perform_all ms store i = Some p''"
  then show "status p'' = RESOLVED"
    using perform_all_resolved [of store i p ms] by auto
next
  assume "store i = Some p \<and> status p = RESOLVED"
  then show "snd (handleResolvePost env' i store) = store"
    using resolve_resolved by blast
next
  assume "store i = Some p \<and> status p = RESOLVED" and "write_rejected env' = None"
  then show "\<not> list_ex is_error_report (fst (handleResolvePost env' i store))"
    using resolve_existing_no_report by blast
qed

lemma sample_store_values:
  "sample_store ''p1'' = Some open_doc" "sample_store ''p2'' = Some resolved_doc"
  "sample_store ''p3'' = None"
  by (simp_all add: sample_store_def)

lemma sample_statuses: "status open_doc = OPEN" "status resolved_doc = RESOLVED"
  by (simp_all add: resolved_doc_def open_doc_def newPost_def)

lemma sample_env_values:
  "confirmed env_ok" "write_rejected env_ok = None" "newId env_ok = ''p3''"
  by (simp_all add: env_ok_def)

lemma sample_resolve_open:
  "perform (Resolve env_ok ''p1'') sample_store ''p1'' = Some resolved_doc"
  by (simp add: handleResolvePost_def updateDoc_def Let_def sample_env_values
      sample_store_values resolved_doc_def)

lemma sample_run:
  "perform_all [Resolve env_ok ''p2'', Delete env_ok ''p1'',
      Create env_ok (Some sample_user) sample_form] sample_store ''p2'' = Some resolved_doc"
proof -
  have "perform (Resolve env_ok ''p2'') sample_store = sample_store"
    using resolve_resolved [of sample_store "''p2''" resolved_doc env_ok]
    by (simp add: sample_store_values sample_statuses)
  moreover have "perform (Delete env_ok ''p1'') sample_store = sample_store(''p1'' := None)"
    by (simp add: handleDeletePost_def deleteDoc_def Let_def sample_env_values)
  moreover have "perform (Create env_ok (Some sample_user) sample_form)
      (sample_store(''p1'' := None)) ''p2'' = Some resolved_doc"
    using create_store [of env_ok "Some sample_user" sample_form "sample_store(''p1'' := None)"]
    by (auto simp add: sample_env_values sample_store_values)
  ultimately show ?thesis
    by (simp add: perform_all_def)
qed

theorem C5_status_only_open_to_resolved_witness:
  "sample_store ''p1'' = Some open_doc \<and> status open_doc = OPEN
   \<and> perform (Resolve env_ok ''p1'') sample_store ''p1'' = Some resolved_doc
   \<and> sample_store ''p2'' = Some resolved_doc \<and> status resolved_doc = RESOLVED
   \<and> perform_all [Resolve env_ok ''p2'', Delete env_ok ''p1'',
        Create env_ok (Some sample_user) sample_form] sample_store ''p2'' = Some resolved_doc
   \<and> snd (handleResolvePost env_ok ''p2'' sample_store) = sample_store
   \<and> \<not> list_ex is_error_report (fst (handleResolvePost env_ok ''p2'' sample_store))
   \<and> sample_store ''p3'' = None
   \<and> map_option status
        (snd (handleCreatePost env_ok (Some sample_user) sample_form sample_store) ''p3'') =
       Some OPEN"
proof -
  note C5_status_only_open_to_resolved [of
      "(newPost 1990 sample_user sample_form '''')\<lparr>createdAt := ServerTimestamp\<rparr>"
      env_ok "Some sample_user" sample_form sample_store
      "(newPost 1990 sample_user sample_form '''')\<lparr>createdAt := Timestamp 2000\<rparr>"
      "''p1''" open_doc "Resolve env_ok ''p1''" resolved_doc
      "''p2''" resolved_doc
      "[Resolve env_ok ''p2'', Delete env_ok ''p1'',
        Create env_ok (Some sample_user) sample_form]"
      resolved_doc env_ok]
  then show ?thesis
    using sample_store_values sample_statuses sample_env_values sample_resolve_open
      sample_run sample_create
    by simp
qed

section \<open>Properties of the sync listener\<close>

text \<open>
  Claim C7. The listener gives every mirrored post the \<^verbatim>\<open>createdAt\<close> that
  \<open>snapshot_createdAt\<close> computes from the document's field. A timestamp object
  becomes the number of its epoch milliseconds; a field that is absent or null (the
  server has not assigned the time yet) becomes the number 0; a number stays as it is.
  The result is never null and never absent, whatever the field holds.
\<close>

theorem C7_snapshot_createdAt_is_number:
  "map createdAt (fst (onSnapshot_listener docs)) =
     map (\<lambda>doc. snapshot_createdAt (createdAt (snd doc))) docs
   \<and> map post_id (fst (onSnapshot_listener docs)) = map fst docs
   \<and> snapshot_createdAt (Timestamp millis) = Num millis
   \<and> snapshot_createdAt Absent = Num 0
   \<and> snapshot_createdAt Null = Num 0
   \<and> snapshot_createdAt (Num n) = Num n
   \<and> snapshot_createdAt v \<noteq> Null
   \<and> snapshot_createdAt v \<noteq> Absent
   \<and> createdAt (fetchedPost (docId, data\<lparr>createdAt := Timestamp millis\<rparr>)) = Num millis
   \<and> createdAt (fetchedPost (docId, data\<lparr>createdAt := Null\<rparr>)) = Num 0"
proof -
  have "snapshot_createdAt v \<noteq> Null" and "snapshot_createdAt v \<noteq> Absent"
    by (cases v; simp)+
  moreover have "createdAt (fetchedPost doc) = snapshot_createdAt (createdAt (snd doc))"
    and "post_id (fetchedPost doc) = fst doc" for doc
    by (simp_all add: fetchedPost_def PostData.defs Post.defs)
  ultimately show ?thesis
    by (simp add: onSnapshot_listener_def)
qed

end
